theory Spec2Isabelle
  imports Complex_Main "HOL-Library.AList" "HOL-Library.Sublist"
begin

section \<open>The portfolio service: a read-through cache over a remote store\<close>

text \<open>
  The class \<open>PortfolioService\<close> keeps one private field, \<open>cache\<close>, a JavaScript
  \<open>Map\<close> from string keys to \<open>{data, timestamp}\<close> objects. A JavaScript \<open>Map\<close>
  iterates in insertion order, \<open>set\<close> on a key that is present replaces the value in
  place and \<open>set\<close> on a new key appends it. That is an association list with
  \<open>map_of\<close> for \<open>get\<close>, \<open>AList.update\<close> for \<open>set\<close> and \<open>AList.delete\<close> for
  \<open>delete\<close>.

  Effects are explicit. The methods take the cache and return the new one. Everything
  outside the object (the wall clock read by \<open>Date.now()\<close>, the remote store) is the
  world: a record with the clock, open to extension. An asynchronous producer
  \<open>fetchFn\<close> is a function from the world in which it is started to its settled result
  (\<open>Inl\<close> a rejection, \<open>Inr\<close> a value) and the world in which it settles. The model is
  the sequential one: nothing else touches the cache while a call awaits its producer.
  \<open>console.error\<close> is not modelled.
\<close>

subsection \<open>Data\<close>

record 'a cache_entry =
  data :: 'a
  timestamp :: int

type_synonym 'a cache = "(string \<times> 'a cache_entry) list"

record world =
  clock :: int

type_synonym ('e, 'a, 'z) producer =
  "'z world_scheme \<Rightarrow> ('e + 'a) \<times> 'z world_scheme"

definition CACHE_DURATION :: int where
  "CACHE_DURATION = 5 * 60 * 1000"

subsection \<open>getCachedOrFetch\<close>

text \<open>
  Lines 45 to 50: the entry the hit path returns, if any. \<open>cached\<close> is an object or
  \<open>undefined\<close>, so its truthiness is its presence.
\<close>

definition fresh_entry :: "'a cache \<Rightarrow> string \<Rightarrow> int \<Rightarrow> 'a cache_entry option" where
  "fresh_entry c cacheKey now =
     (case map_of c cacheKey of
        None \<Rightarrow> None
      | Some cached \<Rightarrow>
          if now - timestamp cached < CACHE_DURATION then Some cached else None)"

text \<open>
  The result is the settled promise, the cache after the call and the world after the
  call. \<open>fallbackData\<close> is an optional parameter compared with \<open>undefined\<close>: an
  option.
\<close>

definition getCachedOrFetch ::
  "'a cache \<Rightarrow> string \<Rightarrow> ('e, 'a, 'z) producer \<Rightarrow> bool \<Rightarrow> 'a option \<Rightarrow> 'z world_scheme
     \<Rightarrow> ('e + 'a) \<times> 'a cache \<times> 'z world_scheme" where
  "getCachedOrFetch c cacheKey fetchFn forceFresh fallbackData w =
     (case (if \<not> forceFresh then fresh_entry c cacheKey (clock w) else None) of
        Some cached \<Rightarrow> (Inr (data cached), c, w)
      | None \<Rightarrow>
          (case fetchFn w of
             (Inr d, w') \<Rightarrow>
               (Inr d, AList.update cacheKey \<lparr>data = d, timestamp = clock w'\<rparr> c, w')
           | (Inl error, w') \<Rightarrow>
               (case map_of c cacheKey of
                  Some cached \<Rightarrow> (Inr (data cached), c, w')
                | None \<Rightarrow>
                    (case fallbackData of
                       Some fb \<Rightarrow> (Inr fb, c, w')
                     | None \<Rightarrow> (Inl error, c, w')))))"

subsection \<open>clearCache\<close>

text \<open>
  \<open>key.includes(pattern)\<close>: the pattern occurs in the key as a contiguous run.
  Strings are lists of code units.
\<close>

definition js_includes :: "string \<Rightarrow> string \<Rightarrow> bool" where
  "js_includes key pattern = sublist pattern key"

text \<open>
  \<open>pattern\<close> is an optional string tested for truthiness: absent and the empty
  string both take the \<open>else\<close> branch. \<open>keysToDelete\<close> is a snapshot of the keys,
  filtered, and each one is deleted in turn. No operation of the \<open>try\<close> block throws
  on a \<open>Map\<close> with string keys and a string pattern, so the \<open>catch\<close> block is
  unreachable and the method has no error result.
\<close>

definition clearCache :: "'a cache \<Rightarrow> string option \<Rightarrow> 'a cache" where
  "clearCache c pattern =
     (case pattern of
        Some p \<Rightarrow>
          if p \<noteq> [] then
            (let keysToDelete = filter (\<lambda>key. js_includes key p) (map fst c)
             in foldl (\<lambda>m key. AList.delete key m) c keysToDelete)
          else []
      | None \<Rightarrow> [])"

subsection \<open>The remote store\<close>

text \<open>
  The module \<open>./supabase\<close> is an external collaborator. A query is what the builder
  calls assemble; awaiting it either rejects (\<open>Inl\<close>) or resolves to an object with a
  \<open>data\<close> and an \<open>error\<close> field, each of which may be \<open>null\<close>. The store itself is
  a parameter \<open>remote\<close> of the operations below.
\<close>

datatype query_filter = Eq string string | Is_null string

record query =
  q_from :: string
  q_select :: string
  q_filters :: "query_filter list"
  q_order :: "string \<times> bool"

record ('e, 'r) response =
  resp_data :: "'r list option"
  resp_error :: "'e option"

type_synonym ('e, 'r, 'z) remote =
  "query \<Rightarrow> 'z world_scheme \<Rightarrow> ('e + ('e, 'r) response) \<times> 'z world_scheme"

text \<open>
  \<open>userId || 'public'\<close> and \<open>if (userId)\<close>: an absent and an empty user identifier
  are both falsy.
\<close>

definition user_or_public :: "string option \<Rightarrow> string" where
  "user_or_public userId =
     (case userId of Some u \<Rightarrow> if u \<noteq> [] then u else ''public'' | None \<Rightarrow> ''public'')"

definition user_filter :: "string option \<Rightarrow> query_filter" where
  "user_filter userId =
     (case userId of
        Some u \<Rightarrow> if u \<noteq> [] then Eq ''user_id'' u else Is_null ''user_id''
      | None \<Rightarrow> Is_null ''user_id'')"

subsection \<open>Quarter summaries\<close>

text \<open>
  JavaScript numbers are modelled as reals for weights and returns, and as a natural
  number for the row count (an array is shorter than \<open>2^32\<close>, so the count is exact).
  \<open>QuarterSummary\<close> keeps the field names of the interface; the rows selected by the
  query and the values of \<open>quarterMap\<close> get prefixed names.
\<close>

record quarter_summary =
  quarter :: string
  total_stocks :: nat
  avg_returns :: real
  total_weight :: real

record item =
  item_quarter :: string
  item_weight :: real
  item_quarterly_returns :: real

record totals =
  acc_total_stocks :: nat
  acc_total_returns :: real
  acc_total_weight :: real

text \<open>The cache holds values of both operations (its \<open>data\<close> field is \<open>any\<close>).\<close>

datatype 'r cached_data = Constituents "'r list" | Summaries "quarter_summary list"

text \<open>Lines 144 to 156: the body of \<open>data.forEach\<close>, and the loop from an empty map.\<close>

definition add_item :: "(string \<times> totals) list \<Rightarrow> item \<Rightarrow> (string \<times> totals) list" where
  "add_item quarterMap item =
     (let existing =
        (case map_of quarterMap (item_quarter item) of
           Some e \<Rightarrow> e
         | None \<Rightarrow> \<lparr>acc_total_stocks = 0, acc_total_returns = 0, acc_total_weight = 0\<rparr>)
      in AList.update (item_quarter item)
           \<lparr>acc_total_stocks = acc_total_stocks existing + 1,
            acc_total_returns = acc_total_returns existing + item_quarterly_returns item,
            acc_total_weight = acc_total_weight existing + item_weight item\<rparr>
           quarterMap)"

definition group_items :: "item list \<Rightarrow> (string \<times> totals) list" where
  "group_items rows = foldl add_item [] rows"





subsection \<open>getPortfolioByQuarter\<close>

definition portfolio_query :: "string \<Rightarrow> string option \<Rightarrow> query" where
  "portfolio_query quarter_label userId =
     \<lparr>q_from = ''portfolio_constituents'',
      q_select = ''*'',
      q_filters = [Eq ''quarter'' quarter_label, user_filter userId],
      q_order = (''weight'', False)\<rparr>"

definition portfolioFetch ::
  "('e, 'r, 'z) remote \<Rightarrow> string \<Rightarrow> string option \<Rightarrow> ('e, 'r cached_data, 'z) producer" where
  "portfolioFetch remote quarter_label userId w =
     (case remote (portfolio_query quarter_label userId) w of
        (Inl error, w') \<Rightarrow> (Inl error, w')
      | (Inr resp, w') \<Rightarrow>
          (case resp_error resp of
             Some error \<Rightarrow> (Inl error, w')
           | None \<Rightarrow>
               (Inr (Constituents (case resp_data resp of Some d \<Rightarrow> d | None \<Rightarrow> [])), w')))"

definition getPortfolioByQuarter ::
  "'r cached_data cache \<Rightarrow> ('e, 'r, 'z) remote \<Rightarrow> string \<Rightarrow> string option \<Rightarrow> 'z world_scheme
     \<Rightarrow> ('e + 'r cached_data) \<times> 'r cached_data cache \<times> 'z world_scheme" where
  "getPortfolioByQuarter c remote quarter_label userId w =
     getCachedOrFetch c (''portfolio_'' @ quarter_label @ ''_'' @ user_or_public userId)
       (portfolioFetch remote quarter_label userId) False None w"

subsection \<open>The grouping, as the specification words it\<close>

text \<open>
  The distinct elements of a list in the order of their first occurrence, and for each
  distinct quarter the summary of the rows that carry it: their number, the sum of their
  returns divided by that number, and the sum of their weights.
\<close>

fun first_occurrences :: "'a list \<Rightarrow> 'a list" where
  "first_occurrences [] = []"
| "first_occurrences (x # xs) = x # filter (\<lambda>y. y \<noteq> x) (first_occurrences xs)"

definition rows_of_quarter :: "string \<Rightarrow> item list \<Rightarrow> item list" where
  "rows_of_quarter q rows = filter (\<lambda>r. item_quarter r = q) rows"


text \<open>The three totals of one quarter, as the quarter map holds them.\<close>

definition group_totals :: "string \<Rightarrow> item list \<Rightarrow> totals" where
  "group_totals q rows =
     \<lparr>acc_total_stocks = length (rows_of_quarter q rows),
      acc_total_returns = sum_list (map item_quarterly_returns (rows_of_quarter q rows)),
      acc_total_weight = sum_list (map item_weight (rows_of_quarter q rows))\<rparr>"

section \<open>Properties of the cache\<close>

lemma fresh_entry_Some:
  "fresh_entry c k now = Some e \<longleftrightarrow> map_of c k = Some e \<and> now - timestamp e < CACHE_DURATION"
  by (auto simp: fresh_entry_def split: option.splits)

lemma fresh_entry_None:
  "fresh_entry c k now = None \<longleftrightarrow>
     (case map_of c k of None \<Rightarrow> True | Some e \<Rightarrow> CACHE_DURATION \<le> now - timestamp e)"
  by (auto simp: fresh_entry_def split: option.splits)


lemma getCachedOrFetch_hit:
  assumes "\<not> forceFresh" and "fresh_entry c k (clock w) = Some e"
  shows "getCachedOrFetch c k f forceFresh fb w = (Inr (data e), c, w)"
  using assms by (simp add: getCachedOrFetch_def)

lemma getCachedOrFetch_miss_success:
  assumes "forceFresh \<or> fresh_entry c k (clock w) = None" and "f w = (Inr d, w')"
  shows "getCachedOrFetch c k f forceFresh fb w =
           (Inr d, AList.update k \<lparr>data = d, timestamp = clock w'\<rparr> c, w')"
  using assms by (auto simp: getCachedOrFetch_def)

lemma getCachedOrFetch_miss_failure:
  assumes "forceFresh \<or> fresh_entry c k (clock w) = None" and "f w = (Inl err, w')"
  shows "getCachedOrFetch c k f forceFresh fb w =
           (case map_of c k of
              Some cached \<Rightarrow> Inr (data cached)
            | None \<Rightarrow> (case fb of Some v \<Rightarrow> Inr v | None \<Rightarrow> Inl err), c, w')"
  using assms by (auto simp: getCachedOrFetch_def split: option.splits)

lemma getCachedOrFetch_cases:
  obtains (hit) e where "\<not> forceFresh" "fresh_entry c k (clock w) = Some e"
  | (success) d w' where "forceFresh \<or> fresh_entry c k (clock w) = None" "f w = (Inr d, w')"
  | (failure) err w' where "forceFresh \<or> fresh_entry c k (clock w) = None" "f w = (Inl err, w')"
proof (cases "forceFresh \<or> fresh_entry c k (clock w) = None")
  case True
  obtain r w' where fw: "f w = (r, w')" by (cases "f w")
  show ?thesis
  proof (cases r)
    case (Inl err) with True fw failure show ?thesis by blast
  next
    case (Inr d) with True fw success show ?thesis by blast
  qed
next
  case False
  then show ?thesis using hit by auto
qed

text \<open>
  C1. After a call with \<open>forceFresh = false\<close> that succeeded, a second call for the same
  key with \<open>forceFresh = false\<close>, made on the cache the first call left while the stored
  entry is younger than \<open>CACHE_DURATION\<close> (five minutes), returns the first call's data
  and does not invoke its producer: whatever the producer \<open>g\<close> is, the result is the
  same, and the world is the one the call started in.
\<close>

theorem second_call_within_window_hits:
  assumes first: "getCachedOrFetch c K f False fb w = (Inr d, c1, w1)"
    and entry: "map_of c1 K = Some e"
    and age: "clock w2 - timestamp e < CACHE_DURATION"
  shows "getCachedOrFetch c1 K g False fb' w2 = (Inr d, c1, w2)"
proof -
  have fresh: "fresh_entry c1 K (clock w2) = Some e"
    using entry age by (simp add: fresh_entry_Some)
  have "data e = d"
  proof (cases rule: getCachedOrFetch_cases [where forceFresh = False and c = c and k = K and w = w and f = f])
    case (hit e0)
    with first have "d = data e0" "c1 = c"
      by (auto simp: getCachedOrFetch_hit)
    moreover from hit have "map_of c K = Some e0" by (simp add: fresh_entry_Some)
    ultimately show ?thesis using entry by simp
  next
    case (success d0 w')
    with first have "d = d0" "c1 = AList.update K \<lparr>data = d0, timestamp = clock w'\<rparr> c"
      by (auto simp: getCachedOrFetch_miss_success)
    then show ?thesis using entry by (auto simp: update_conv')
  next
    case (failure err w')
    with first have r: "(case map_of c K of Some cached \<Rightarrow> Inr (data cached)
         | None \<Rightarrow> (case fb of Some v \<Rightarrow> Inr v | None \<Rightarrow> Inl err)) = Inr d" and "c1 = c"
      by (auto simp: getCachedOrFetch_miss_failure)
    then show ?thesis using entry by simp
  qed
  with fresh show ?thesis by (simp add: getCachedOrFetch_hit)
qed

theorem second_call_within_window_hits_witness:
  "getCachedOrFetch [] ''portfolio_Q1_public''
      (\<lambda>w. (Inr (42::nat), w\<lparr>clock := clock w + 250\<rparr>) :: (string + nat) \<times> world) False None
      \<lparr>clock = 1000\<rparr>
     = (Inr 42, [(''portfolio_Q1_public'', \<lparr>data = 42, timestamp = 1250\<rparr>)], \<lparr>clock = 1250\<rparr>)
   \<and> getCachedOrFetch [(''portfolio_Q1_public'', \<lparr>data = 42, timestamp = 1250\<rparr>)]
        ''portfolio_Q1_public''
        (\<lambda>w. (Inr (43::nat), w\<lparr>clock := clock w + 250\<rparr>) :: (string + nat) \<times> world) False None
        \<lparr>clock = 301249\<rparr>
     = (Inr 42, [(''portfolio_Q1_public'', \<lparr>data = 42, timestamp = 1250\<rparr>)], \<lparr>clock = 301249\<rparr>)"
proof -
  let ?f = "\<lambda>w. (Inr (42::nat), w\<lparr>clock := clock w + 250\<rparr>) :: (string + nat) \<times> world"
  let ?g = "\<lambda>w. (Inr (43::nat), w\<lparr>clock := clock w + 250\<rparr>) :: (string + nat) \<times> world"
  let ?c1 = "[(''portfolio_Q1_public'', \<lparr>data = 42::nat, timestamp = 1250\<rparr>)]"
  have first: "getCachedOrFetch [] ''portfolio_Q1_public'' ?f False None \<lparr>clock = 1000\<rparr>
      = (Inr 42, ?c1, \<lparr>clock = 1250\<rparr>)"
    by (simp add: getCachedOrFetch_def fresh_entry_def)
  have entry: "map_of ?c1 ''portfolio_Q1_public'' = Some \<lparr>data = 42, timestamp = 1250\<rparr>"
    by simp
  have age: "clock \<lparr>clock = 301249\<rparr> - timestamp \<lparr>data = 42::nat, timestamp = 1250\<rparr> < CACHE_DURATION"
    by (simp add: CACHE_DURATION_def)
  from second_call_within_window_hits [OF first entry age, of ?g None] first
  show ?thesis by simp
qed


text \<open>
  C2. When the producer fails and the cache holds an entry for the key, whatever its
  age, the call returns that entry's data and does not raise. Where the producer is
  really invoked (a forced refresh, or an entry as old as the freshness window or
  older), the cache is left as it was and the world is the one the producer settled in.
\<close>

theorem producer_failure_returns_existing_entry:
  assumes fails: "fetchFn w = (Inl err, w')"
    and entry: "map_of c K = Some cached"
  shows "fst (getCachedOrFetch c K fetchFn forceFresh fallbackData w) = Inr (data cached)
       \<and> (forceFresh \<or> CACHE_DURATION \<le> clock w - timestamp cached \<longrightarrow>
            getCachedOrFetch c K fetchFn forceFresh fallbackData w = (Inr (data cached), c, w'))"
proof (cases "forceFresh \<or> fresh_entry c K (clock w) = None")
  case True
  then show ?thesis
    using fails entry by (auto simp: getCachedOrFetch_miss_failure)
next
  case False
  then obtain e where e: "\<not> forceFresh" "fresh_entry c K (clock w) = Some e"
    by auto
  then have "e = cached" "\<not> CACHE_DURATION \<le> clock w - timestamp cached"
    using entry by (auto simp: fresh_entry_Some)
  with e show ?thesis by (simp add: getCachedOrFetch_hit)
qed

theorem producer_failure_returns_existing_entry_witness:
  "getCachedOrFetch [(''quarters_public'', \<lparr>data = 9::nat, timestamp = 0\<rparr>)] ''quarters_public''
      (\<lambda>w. (Inl ''offline'', w\<lparr>clock := clock w + 30\<rparr>) :: (string + nat) \<times> world) False (Some 1)
      \<lparr>clock = 86400000\<rparr>
     = (Inr 9, [(''quarters_public'', \<lparr>data = 9, timestamp = 0\<rparr>)], \<lparr>clock = 86400030\<rparr>)"
proof -
  let ?f = "\<lambda>w. (Inl ''offline'', w\<lparr>clock := clock w + 30\<rparr>) :: (string + nat) \<times> world"
  have fails: "?f \<lparr>clock = 86400000\<rparr> = (Inl ''offline'', \<lparr>clock = 86400030\<rparr>)"
    by simp
  have entry: "map_of [(''quarters_public'', \<lparr>data = 9::nat, timestamp = 0\<rparr>)] ''quarters_public''
      = Some \<lparr>data = 9, timestamp = 0\<rparr>"
    by simp
  from fails entry
    producer_failure_returns_existing_entry
      [where fetchFn = ?f and w = "\<lparr>clock = 86400000\<rparr>" and w' = "\<lparr>clock = 86400030\<rparr>"
         and err = "''offline''" and K = "''quarters_public''"
         and c = "[(''quarters_public'', \<lparr>data = 9::nat, timestamp = 0\<rparr>)]"
         and cached = "\<lparr>data = 9::nat, timestamp = 0\<rparr>"
         and forceFresh = False and fallbackData = "Some 1"]
  show ?thesis by (simp add: CACHE_DURATION_def)
qed

text \<open>
  C3. When the producer fails and the cache holds no entry for the key, the call returns
  the fallback value if one was supplied and otherwise raises the producer's own error;
  the cache is unchanged.
\<close>

theorem producer_failure_without_entry:
  assumes fails: "fetchFn w = (Inl err, w')"
    and no_entry: "map_of c K = None"
  shows "getCachedOrFetch c K fetchFn forceFresh fallbackData w =
           (case fallbackData of Some fb \<Rightarrow> Inr fb | None \<Rightarrow> Inl err, c, w')"
proof -
  have "fresh_entry c K (clock w) = None"
    using no_entry by (simp add: fresh_entry_None)
  then show ?thesis
    using fails no_entry by (simp add: getCachedOrFetch_miss_failure)
qed

theorem producer_failure_without_entry_witness:
  "getCachedOrFetch [] ''quarters_public''
      (\<lambda>w. (Inl ''offline'', w\<lparr>clock := clock w + 30\<rparr>) :: (string + nat) \<times> world) False (Some 1)
      \<lparr>clock = 500\<rparr>
     = (Inr 1, [], \<lparr>clock = 530\<rparr>)
   \<and> getCachedOrFetch [] ''quarters_public''
      (\<lambda>w. (Inl ''offline'', w\<lparr>clock := clock w + 30\<rparr>) :: (string + nat) \<times> world) False None
      \<lparr>clock = 500\<rparr>
     = (Inl ''offline'', [], \<lparr>clock = 530\<rparr>)"
proof -
  let ?f = "\<lambda>w. (Inl ''offline'', w\<lparr>clock := clock w + 30\<rparr>) :: (string + nat) \<times> world"
  have fails: "?f \<lparr>clock = 500\<rparr> = (Inl ''offline'', \<lparr>clock = 530\<rparr>)"
    by simp
  have no_entry: "map_of ([] :: nat cache) ''quarters_public'' = None"
    by simp
  note inst = producer_failure_without_entry
      [where fetchFn = ?f and w = "\<lparr>clock = 500\<rparr>" and w' = "\<lparr>clock = 530\<rparr>"
         and err = "''offline''" and K = "''quarters_public''" and c = "[] :: nat cache"
         and forceFresh = False]
  from fails no_entry inst [where fallbackData = "Some 1"] inst [where fallbackData = None]
  show ?thesis by simp
qed

text \<open>
  C4. A failing producer leaves the cache exactly as it was. A producer that is invoked
  and succeeds stores the key with the result and the time read after it settled,
  replacing any earlier entry for that key and no other. Whenever the cache after a call
  differs from the cache before, the producer succeeded and that write is the
  difference.
\<close>

theorem cache_written_only_on_success:
  "(\<forall>err w'. fetchFn w = (Inl err, w') \<longrightarrow>
      fst (snd (getCachedOrFetch c K fetchFn forceFresh fallbackData w)) = c)
   \<and> (\<forall>d w'. fetchFn w = (Inr d, w') \<longrightarrow> (forceFresh \<or> fresh_entry c K (clock w) = None) \<longrightarrow>
        fst (snd (getCachedOrFetch c K fetchFn forceFresh fallbackData w))
          = AList.update K \<lparr>data = d, timestamp = clock w'\<rparr> c
        \<and> map_of (fst (snd (getCachedOrFetch c K fetchFn forceFresh fallbackData w)))
          = (map_of c)(K \<mapsto> \<lparr>data = d, timestamp = clock w'\<rparr>))
   \<and> (fst (snd (getCachedOrFetch c K fetchFn forceFresh fallbackData w)) \<noteq> c \<longrightarrow>
        (\<exists>d w'. fetchFn w = (Inr d, w')
           \<and> getCachedOrFetch c K fetchFn forceFresh fallbackData w
               = (Inr d, AList.update K \<lparr>data = d, timestamp = clock w'\<rparr> c, w')))"
proof (cases rule: getCachedOrFetch_cases
    [where forceFresh = forceFresh and c = c and k = K and w = w and f = fetchFn])
  case (hit e)
  then have "getCachedOrFetch c K fetchFn forceFresh fallbackData w = (Inr (data e), c, w)"
    by (rule getCachedOrFetch_hit)
  with hit show ?thesis by auto
next
  case (success d w')
  then have "getCachedOrFetch c K fetchFn forceFresh fallbackData w
      = (Inr d, AList.update K \<lparr>data = d, timestamp = clock w'\<rparr> c, w')"
    by (rule getCachedOrFetch_miss_success)
  with success show ?thesis by (simp add: update_conv')
next
  case (failure err w')
  then have "fst (snd (getCachedOrFetch c K fetchFn forceFresh fallbackData w)) = c"
    by (simp add: getCachedOrFetch_miss_failure)
  with failure show ?thesis by simp
qed

theorem cache_written_only_on_success_witness:
  "fst (snd (getCachedOrFetch [(''quarters_public'', \<lparr>data = 9::nat, timestamp = 0\<rparr>)]
        ''quarters_public''
        (\<lambda>w. (Inl ''offline'', w\<lparr>clock := clock w + 30\<rparr>) :: (string + nat) \<times> world)
        False None \<lparr>clock = 400000\<rparr>))
     = [(''quarters_public'', \<lparr>data = 9, timestamp = 0\<rparr>)]
   \<and> fst (snd (getCachedOrFetch [(''quarters_public'', \<lparr>data = 9::nat, timestamp = 0\<rparr>)]
        ''quarters_public''
        (\<lambda>w. (Inr 42, w\<lparr>clock := clock w + 250\<rparr>) :: (string + nat) \<times> world)
        False None \<lparr>clock = 400000\<rparr>))
     = [(''quarters_public'', \<lparr>data = 42, timestamp = 400250\<rparr>)]"
proof -
  let ?c = "[(''quarters_public'', \<lparr>data = 9::nat, timestamp = 0\<rparr>)]"
  let ?f = "\<lambda>w. (Inl ''offline'', w\<lparr>clock := clock w + 30\<rparr>) :: (string + nat) \<times> world"
  let ?g = "\<lambda>w. (Inr 42, w\<lparr>clock := clock w + 250\<rparr>) :: (string + nat) \<times> world"
  have stale: "fresh_entry ?c ''quarters_public'' (clock \<lparr>clock = 400000\<rparr>) = None"
    by (simp add: fresh_entry_def CACHE_DURATION_def)
  note inst = cache_written_only_on_success
      [where c = ?c and K = "''quarters_public''" and forceFresh = False
         and fallbackData = None and w = "\<lparr>clock = 400000\<rparr>"]
  from stale inst [where fetchFn = ?f] inst [where fetchFn = ?g]
  show ?thesis by simp
qed

text \<open>
  C6. When the stored entry for the key is as old as the freshness window or older, a
  call with \<open>forceFresh = false\<close> invokes the producer: the world after the call is
  the one the producer settled in, and the result is the producer's value (stored anew)
  or, if it failed, the stale entry's data by the failure path.
\<close>

theorem stale_entry_invokes_producer:
  assumes entry: "map_of c K = Some e"
    and stale: "CACHE_DURATION \<le> clock w - timestamp e"
  shows "snd (snd (getCachedOrFetch c K fetchFn False fallbackData w)) = snd (fetchFn w)
       \<and> getCachedOrFetch c K fetchFn False fallbackData w =
           (case fetchFn w of
              (Inr d, w') \<Rightarrow> (Inr d, AList.update K \<lparr>data = d, timestamp = clock w'\<rparr> c, w')
            | (Inl err, w') \<Rightarrow> (Inr (data e), c, w'))"
proof -
  have miss: "False \<or> fresh_entry c K (clock w) = None"
    using entry stale by (simp add: fresh_entry_None)
  obtain r w' where fw: "fetchFn w = (r, w')"
    by (cases "fetchFn w")
  show ?thesis
  proof (cases r)
    case (Inl err)
    with fw have "fetchFn w = (Inl err, w')" by simp
    with miss have "getCachedOrFetch c K fetchFn False fallbackData w =
        (case map_of c K of
           Some cached \<Rightarrow> Inr (data cached)
         | None \<Rightarrow> (case fallbackData of Some v \<Rightarrow> Inr v | None \<Rightarrow> Inl err), c, w')"
      by (rule getCachedOrFetch_miss_failure)
    with entry fw Inl show ?thesis by simp
  next
    case (Inr d)
    with fw have "fetchFn w = (Inr d, w')" by simp
    with miss have "getCachedOrFetch c K fetchFn False fallbackData w =
        (Inr d, AList.update K \<lparr>data = d, timestamp = clock w'\<rparr> c, w')"
      by (rule getCachedOrFetch_miss_success)
    with fw Inr show ?thesis by simp
  qed
qed

theorem stale_entry_invokes_producer_witness:
  "getCachedOrFetch [(''portfolio_Q1_public'', \<lparr>data = 9::nat, timestamp = 1000\<rparr>)]
      ''portfolio_Q1_public''
      (\<lambda>w. (Inr 42, w\<lparr>clock := clock w + 250\<rparr>) :: (string + nat) \<times> world)
      False None \<lparr>clock = 301000\<rparr>
     = (Inr 42, [(''portfolio_Q1_public'', \<lparr>data = 42, timestamp = 301250\<rparr>)],
        \<lparr>clock = 301250\<rparr>)"
proof -
  let ?c = "[(''portfolio_Q1_public'', \<lparr>data = 9::nat, timestamp = 1000\<rparr>)]"
  let ?g = "\<lambda>w. (Inr 42, w\<lparr>clock := clock w + 250\<rparr>) :: (string + nat) \<times> world"
  from stale_entry_invokes_producer
      [where c = ?c and K = "''portfolio_Q1_public''" and e = "\<lparr>data = 9::nat, timestamp = 1000\<rparr>"
         and w = "\<lparr>clock = 301000\<rparr>" and fetchFn = ?g and fallbackData = None]
  show ?thesis by (simp add: CACHE_DURATION_def)
qed

text \<open>
  C10. With \<open>forceFresh = true\<close> the producer is always invoked, also when a fresh
  entry exists: the world after the call is the one the producer settled in and a
  successful result is returned and stored. If the producer fails and any entry exists
  for the key, that entry's data is returned instead of raising.
\<close>

theorem forceFresh_skips_only_the_hit_path:
  "snd (snd (getCachedOrFetch c K fetchFn True fallbackData w)) = snd (fetchFn w)
   \<and> (\<forall>d w'. fetchFn w = (Inr d, w') \<longrightarrow>
        getCachedOrFetch c K fetchFn True fallbackData w
          = (Inr d, AList.update K \<lparr>data = d, timestamp = clock w'\<rparr> c, w'))
   \<and> (\<forall>err w' e. fetchFn w = (Inl err, w') \<longrightarrow> map_of c K = Some e \<longrightarrow>
        getCachedOrFetch c K fetchFn True fallbackData w = (Inr (data e), c, w'))"
proof -
  have miss: "True \<or> fresh_entry c K (clock w) = None"
    by simp
  obtain r w' where fw: "fetchFn w = (r, w')"
    by (cases "fetchFn w")
  show ?thesis
  proof (cases r)
    case (Inl err)
    with fw have "fetchFn w = (Inl err, w')" by simp
    with miss have "getCachedOrFetch c K fetchFn True fallbackData w =
        (case map_of c K of
           Some cached \<Rightarrow> Inr (data cached)
         | None \<Rightarrow> (case fallbackData of Some v \<Rightarrow> Inr v | None \<Rightarrow> Inl err), c, w')"
      by (rule getCachedOrFetch_miss_failure)
    with fw Inl show ?thesis by auto
  next
    case (Inr d)
    with fw have "fetchFn w = (Inr d, w')" by simp
    with miss have "getCachedOrFetch c K fetchFn True fallbackData w =
        (Inr d, AList.update K \<lparr>data = d, timestamp = clock w'\<rparr> c, w')"
      by (rule getCachedOrFetch_miss_success)
    with fw Inr show ?thesis by auto
  qed
qed

theorem forceFresh_skips_only_the_hit_path_witness:
  "getCachedOrFetch [(''portfolio_Q1_public'', \<lparr>data = 9::nat, timestamp = 1000\<rparr>)]
      ''portfolio_Q1_public''
      (\<lambda>w. (Inr 42, w\<lparr>clock := clock w + 250\<rparr>) :: (string + nat) \<times> world)
      True None \<lparr>clock = 2000\<rparr>
     = (Inr 42, [(''portfolio_Q1_public'', \<lparr>data = 42, timestamp = 2250\<rparr>)], \<lparr>clock = 2250\<rparr>)
   \<and> getCachedOrFetch [(''portfolio_Q1_public'', \<lparr>data = 9::nat, timestamp = 1000\<rparr>)]
      ''portfolio_Q1_public''
      (\<lambda>w. (Inl ''offline'', w\<lparr>clock := clock w + 30\<rparr>) :: (string + nat) \<times> world)
      True None \<lparr>clock = 2000\<rparr>
     = (Inr 9, [(''portfolio_Q1_public'', \<lparr>data = 9, timestamp = 1000\<rparr>)], \<lparr>clock = 2030\<rparr>)"
proof -
  let ?c = "[(''portfolio_Q1_public'', \<lparr>data = 9::nat, timestamp = 1000\<rparr>)]"
  let ?f = "\<lambda>w. (Inl ''offline'', w\<lparr>clock := clock w + 30\<rparr>) :: (string + nat) \<times> world"
  let ?g = "\<lambda>w. (Inr 42, w\<lparr>clock := clock w + 250\<rparr>) :: (string + nat) \<times> world"
  note inst = forceFresh_skips_only_the_hit_path
      [where c = ?c and K = "''portfolio_Q1_public''" and fallbackData = None
         and w = "\<lparr>clock = 2000\<rparr>"]
  from inst [where fetchFn = ?f] inst [where fetchFn = ?g]
  show ?thesis by simp
qed


section \<open>Properties of cache management\<close>

lemma foldl_delete_filter:
  "foldl (\<lambda>m key. AList.delete key m) c ks = filter (\<lambda>p. fst p \<notin> set ks) c"
proof (induction ks arbitrary: c)
  case Nil
  then show ?case by simp
next
  case (Cons k ks)
  have "AList.delete k c = filter (\<lambda>p. fst p \<noteq> k) c"
    by (induction c) auto
  with Cons show ?case
    by (auto intro: filter_cong)
qed

lemma clearCache_pattern:
  "clearCache c (Some p) = filter (\<lambda>entry. \<not> js_includes (fst entry) p) c"
proof (cases "p = []")
  case True
  then show ?thesis by (simp add: clearCache_def js_includes_def)
next
  case False
  then show ?thesis
    by (auto simp: clearCache_def foldl_delete_filter intro: filter_cong)
qed

lemma map_of_filter_keys:
  "map_of (filter (\<lambda>entry. P (fst entry)) c) k = (if P k then map_of c k else None)"
  by (induction c) auto

text \<open>
  C8. \<open>clearCache\<close> with a pattern keeps, in their order and unchanged, exactly the
  entries whose key does not contain the pattern as a contiguous substring, so a lookup
  afterwards finds nothing under a key that contains the pattern and the old entry under
  any other key; without a pattern it empties the cache. The method is total: it has no
  error result.
\<close>

theorem clearCache_removes_matching_keys:
  "clearCache c (Some p) = filter (\<lambda>(key, entry). \<not> js_includes key p) c
   \<and> map_of (clearCache c (Some p)) key
       = (if (\<exists>before after. key = before @ p @ after) then None else map_of c key)
   \<and> clearCache c None = []"
proof -
  have a: "clearCache c (Some p) = filter (\<lambda>(key, entry). \<not> js_includes key p) c"
    by (simp add: clearCache_pattern case_prod_unfold)
  have "map_of (clearCache c (Some p)) key = (if \<not> js_includes key p then map_of c key else None)"
    unfolding clearCache_pattern by (rule map_of_filter_keys)
  moreover have "js_includes key p \<longleftrightarrow> (\<exists>before after. key = before @ p @ after)"
    by (simp add: js_includes_def sublist_def)
  ultimately have b: "map_of (clearCache c (Some p)) key
       = (if (\<exists>before after. key = before @ p @ after) then None else map_of c key)"
    by simp
  have c: "clearCache c None = []"
    by (simp add: clearCache_def)
  from a b c show ?thesis by blast
qed

theorem clearCache_removes_matching_keys_witness:
  "clearCache [(''portfolio_Q1_public'', \<lparr>data = 1::nat, timestamp = 10\<rparr>),
               (''portfolio_Q2_public'', \<lparr>data = 2, timestamp = 20\<rparr>),
               (''quarters_public'', \<lparr>data = 3, timestamp = 30\<rparr>)] (Some ''Q1'')
     = [(''portfolio_Q2_public'', \<lparr>data = 2, timestamp = 20\<rparr>),
        (''quarters_public'', \<lparr>data = 3, timestamp = 30\<rparr>)]"
  using clearCache_removes_matching_keys
    [of "[(''portfolio_Q1_public'', \<lparr>data = 1::nat, timestamp = 10\<rparr>),
          (''portfolio_Q2_public'', \<lparr>data = 2, timestamp = 20\<rparr>),
          (''quarters_public'', \<lparr>data = 3, timestamp = 30\<rparr>)]" "''Q1''"]
  by (simp add: js_includes_def sublist_Cons_right)


section \<open>Properties of the portfolio queries\<close>

lemma set_first_occurrences [simp]: "set (first_occurrences xs) = set xs"
  by (induction xs) auto

lemma distinct_first_occurrences [simp]: "distinct (first_occurrences xs)"
  by (induction xs) auto

lemma first_occurrences_snoc:
  "first_occurrences (xs @ [x]) =
     (if x \<in> set xs then first_occurrences xs else first_occurrences xs @ [x])"
  by (induction xs) auto

lemma map_of_keyed:
  "map_of (map (\<lambda>q. (q, f q)) qs) k = (if k \<in> set qs then Some (f k) else None)"
  by (induction qs) auto

lemma update_keyed:
  assumes "distinct qs"
  shows "AList.update k v (map (\<lambda>q. (q, f q)) qs) =
     (if k \<in> set qs then map (\<lambda>q. (q, if q = k then v else f q)) qs
      else map (\<lambda>q. (q, f q)) qs @ [(k, v)])"
  using assms by (induction qs) auto

lemma group_totals_absent:
  "q \<notin> item_quarter ` set rows \<Longrightarrow>
     group_totals q rows = \<lparr>acc_total_stocks = 0, acc_total_returns = 0, acc_total_weight = 0\<rparr>"
proof -
  assume "q \<notin> item_quarter ` set rows"
  then have "rows_of_quarter q rows = []"
    by (auto simp: rows_of_quarter_def filter_empty_conv)
  then show ?thesis by (simp add: group_totals_def)
qed

lemma group_totals_snoc:
  "group_totals q (rows @ [r]) =
     (if item_quarter r = q then
        \<lparr>acc_total_stocks = acc_total_stocks (group_totals q rows) + 1,
         acc_total_returns = acc_total_returns (group_totals q rows) + item_quarterly_returns r,
         acc_total_weight = acc_total_weight (group_totals q rows) + item_weight r\<rparr>
      else group_totals q rows)"
  by (simp add: group_totals_def rows_of_quarter_def)

lemma add_item_keyed:
  assumes "quarterMap = map (\<lambda>q. (q, group_totals q rows)) (first_occurrences (map item_quarter rows))"
  shows "add_item quarterMap r =
     map (\<lambda>q. (q, group_totals q (rows @ [r]))) (first_occurrences (map item_quarter (rows @ [r])))"
proof -
  let ?k = "item_quarter r"
  let ?qs = "first_occurrences (map item_quarter rows)"
  have existing: "(case map_of quarterMap ?k of Some e \<Rightarrow> e
      | None \<Rightarrow> \<lparr>acc_total_stocks = 0, acc_total_returns = 0, acc_total_weight = 0\<rparr>)
      = group_totals ?k rows"
    using group_totals_absent [of ?k rows] by (simp add: assms map_of_keyed)
  have new: "\<lparr>acc_total_stocks = acc_total_stocks (group_totals ?k rows) + 1,
         acc_total_returns = acc_total_returns (group_totals ?k rows) + item_quarterly_returns r,
         acc_total_weight = acc_total_weight (group_totals ?k rows) + item_weight r\<rparr>
       = group_totals ?k (rows @ [r])"
    by (simp add: group_totals_snoc)
  have step: "add_item quarterMap r = AList.update ?k (group_totals ?k (rows @ [r])) quarterMap"
    unfolding add_item_def Let_def existing new ..
  have other: "(if q = ?k then group_totals ?k (rows @ [r]) else group_totals q rows)
      = group_totals q (rows @ [r])" for q
    by (simp add: group_totals_snoc)
  have upd: "AList.update ?k (group_totals ?k (rows @ [r])) (map (\<lambda>q. (q, group_totals q rows)) ?qs)
      = map (\<lambda>q. (q, group_totals q (rows @ [r]))) (first_occurrences (map item_quarter (rows @ [r])))"
  proof (cases "?k \<in> set ?qs")
    case True
    then show ?thesis
      by (simp add: update_keyed first_occurrences_snoc other)
  next
    case False
    then show ?thesis
      by (auto simp: update_keyed first_occurrences_snoc group_totals_snoc)
  qed
  from step have "add_item quarterMap r
      = AList.update ?k (group_totals ?k (rows @ [r])) (map (\<lambda>q. (q, group_totals q rows)) ?qs)"
    by (simp only: assms)
  with upd show ?thesis by simp
qed

lemma group_items_keyed:
  "group_items rows =
     map (\<lambda>q. (q, group_totals q rows)) (first_occurrences (map item_quarter rows))"
proof (induction rows rule: rev_induct)
  case Nil
  then show ?case by (simp add: group_items_def)
next
  case (snoc r rows)
  have "group_items (rows @ [r]) = add_item (group_items rows) r"
    by (simp add: group_items_def)
  with add_item_keyed [OF snoc] show ?case by simp
qed





text \<open>
  C9. Every entry of the quarter map built from any list of rows has a row count of at
  least one (it is the number of rows carrying that quarter), so the divisor of
  \<open>avg_returns\<close> is never zero.
\<close>

theorem every_group_has_a_row:
  "\<forall>(q, s) \<in> set (group_items rows).
      1 \<le> acc_total_stocks s \<and> real (acc_total_stocks s) \<noteq> 0
      \<and> acc_total_stocks s = length (rows_of_quarter q rows)"
proof -
  have "1 \<le> acc_total_stocks s \<and> real (acc_total_stocks s) \<noteq> 0
      \<and> acc_total_stocks s = length (rows_of_quarter q rows)"
    if "(q, s) \<in> set (group_items rows)" for q s
  proof -
    from that have q: "q \<in> item_quarter ` set rows" and s: "s = group_totals q rows"
      by (auto simp: group_items_keyed)
    from q obtain r where "r \<in> set rows" "item_quarter r = q"
      by auto
    then have "r \<in> set (rows_of_quarter q rows)"
      by (simp add: rows_of_quarter_def)
    then have "1 \<le> length (rows_of_quarter q rows)"
      by (cases "rows_of_quarter q rows") auto
    with s show ?thesis
      by (auto simp: group_totals_def)
  qed
  then show ?thesis by auto
qed

theorem every_group_has_a_row_witness:
  "group_items
     [\<lparr>item_quarter = ''Q1'', item_weight = 0.5, item_quarterly_returns = 10\<rparr>,
      \<lparr>item_quarter = ''Q1'', item_weight = 0.3, item_quarterly_returns = 20\<rparr>,
      \<lparr>item_quarter = ''Q2'', item_weight = 1.0, item_quarterly_returns = 5\<rparr>]
     = [(''Q1'', \<lparr>acc_total_stocks = 2, acc_total_returns = 30, acc_total_weight = 0.8\<rparr>),
        (''Q2'', \<lparr>acc_total_stocks = 1, acc_total_returns = 5, acc_total_weight = 1\<rparr>)]
   \<and> 1 \<le> acc_total_stocks \<lparr>acc_total_stocks = 2, acc_total_returns = 30, acc_total_weight = 0.8\<rparr>
   \<and> 1 \<le> acc_total_stocks \<lparr>acc_total_stocks = 1, acc_total_returns = 5, acc_total_weight = 1\<rparr>"
proof -
  let ?rows = "[\<lparr>item_quarter = ''Q1'', item_weight = 0.5, item_quarterly_returns = 10\<rparr>,
      \<lparr>item_quarter = ''Q1'', item_weight = 0.3, item_quarterly_returns = 20\<rparr>,
      \<lparr>item_quarter = ''Q2'', item_weight = 1.0, item_quarterly_returns = 5\<rparr>]"
  have groups: "group_items ?rows
     = [(''Q1'', \<lparr>acc_total_stocks = 2, acc_total_returns = 30, acc_total_weight = 0.8\<rparr>),
        (''Q2'', \<lparr>acc_total_stocks = 1, acc_total_returns = 5, acc_total_weight = 1\<rparr>)]"
    by (simp add: group_items_def add_item_def)
  from every_group_has_a_row [of ?rows] groups
  show ?thesis by simp
qed

text \<open>
  C7. For every quarter label and optional user identifier, when the call reaches the
  remote store (no fresh entry under its key) and the query resolves without an error
  and with no rows, an empty or a \<open>null\<close> row list, \<open>getPortfolioByQuarter\<close>
  returns the empty list, caches it, and does not raise.
\<close>

theorem getPortfolioByQuarter_no_rows:
  assumes issued: "fresh_entry c (''portfolio_'' @ quarter_label @ ''_'' @ user_or_public userId) (clock w) = None"
    and resolved: "remote (portfolio_query quarter_label userId) w = (Inr resp, w')"
    and no_error: "resp_error resp = None"
    and no_rows: "resp_data resp = None \<or> resp_data resp = Some []"
  shows "getPortfolioByQuarter c remote quarter_label userId w =
           (Inr (Constituents []),
            AList.update (''portfolio_'' @ quarter_label @ ''_'' @ user_or_public userId)
              \<lparr>data = Constituents [], timestamp = clock w'\<rparr> c,
            w')"
proof -
  from no_rows have "(case resp_data resp of Some d \<Rightarrow> d | None \<Rightarrow> []) = []"
    by auto
  with resolved no_error
  have "portfolioFetch remote quarter_label userId w = (Inr (Constituents []), w')"
    by (simp add: portfolioFetch_def)
  with issued show ?thesis
    unfolding getPortfolioByQuarter_def
    by (intro getCachedOrFetch_miss_success) simp_all
qed

theorem getPortfolioByQuarter_no_rows_witness:
  "getPortfolioByQuarter ([] :: nat cached_data cache)
     (\<lambda>q w. (Inr \<lparr>resp_data = None, resp_error = None :: string option\<rparr>, w\<lparr>clock := clock w + 40\<rparr>))
     ''Q1'' None \<lparr>clock = 100\<rparr>
   = (Inr (Constituents []),
      [(''portfolio_Q1_public'', \<lparr>data = Constituents [], timestamp = 140\<rparr>)],
      \<lparr>clock = 140\<rparr>)
   \<and> getPortfolioByQuarter ([] :: nat cached_data cache)
     (\<lambda>q w. (Inr \<lparr>resp_data = Some [], resp_error = None :: string option\<rparr>, w\<lparr>clock := clock w + 40\<rparr>))
     ''Q1'' (Some ''u1'') \<lparr>clock = 100\<rparr>
   = (Inr (Constituents []),
      [(''portfolio_Q1_u1'', \<lparr>data = Constituents [], timestamp = 140\<rparr>)],
      \<lparr>clock = 140\<rparr>)"
proof -
  let ?null = "\<lambda>(q::query) w. (Inr \<lparr>resp_data = None, resp_error = None :: string option\<rparr>,
      w\<lparr>clock := clock w + 40\<rparr>) :: (string + (string, nat) response) \<times> world"
  let ?empty = "\<lambda>(q::query) w. (Inr \<lparr>resp_data = Some [], resp_error = None :: string option\<rparr>,
      w\<lparr>clock := clock w + 40\<rparr>) :: (string + (string, nat) response) \<times> world"
  note inst = getPortfolioByQuarter_no_rows
    [where c = "[] :: nat cached_data cache" and quarter_label = "''Q1''"
       and w = "\<lparr>clock = 100\<rparr>" and w' = "\<lparr>clock = 140\<rparr>"]
  from inst [where remote = ?null and userId = None
         and resp = "\<lparr>resp_data = None, resp_error = None\<rparr>"]
    inst [where remote = ?empty and userId = "Some ''u1''"
         and resp = "\<lparr>resp_data = Some [], resp_error = None\<rparr>"]
  show ?thesis
    by (simp add: fresh_entry_def user_or_public_def)
qed

end
